theory Spec2Isabelle
  imports Main "HOL-Library.AList" "HOL-Library.Word"
begin

section \<open>Values, dictionaries and exceptions\<close>

text \<open>
  The notebook \<open>2. Example-Observability-for-Agent-Applications.ipynb\<close> defines
  \<open>invoke_agent\<close>, which calls the agent runtime API, iterates the returned event
  stream and stamps two timings into the response metadata. Python dictionaries keep
  their insertion order and \<open>d[k] = v\<close> replaces the value of a key that is present
  or appends the key, which is what \<open>AList.update\<close> does on an association list.

  A clock reading (\<open>time.time()\<close>) is a value of an arbitrary type \<open>'t\<close> with a
  subtraction; nothing is assumed of that subtraction.
\<close>

type_synonym byte = "8 word"

text \<open>A Python \<open>str\<close>: a sequence of Unicode code points.\<close>

type_synonym str = "nat list"

datatype 't val =
    VNone
  | VBool bool
  | VInt int
  | VFloat 't
  | VStr str
  | VList "'t val list"
  | VTuple "'t val list"
  | VDict "(string \<times> 't val) list"

type_synonym 't dict = "(string \<times> 't val) list"

text \<open>
  An event of the stream is a dictionary. The code asks whether the key \<open>chunk\<close> is
  in it, then whether the key \<open>trace\<close> is; \<open>None\<close> below is an absent key. The
  payload of \<open>chunk\<close> is a dictionary whose key \<open>bytes\<close> holds the bytes of the
  answer; \<open>attribution\<close> stands for its remaining keys.
\<close>

record 't chunk_payload =
  bytes :: "byte list"
  attribution :: "'t dict"

record 't event =
  chunk :: "'t chunk_payload option"
  trace :: "'t dict option"
  other_keys :: "'t dict"

text \<open>
  The exceptions of a run: the two \<open>Exception(...)\<close> the function raises itself (the
  message, and the event when it is one of the arguments), the \<open>UnicodeDecodeError\<close>
  of \<open>bytes.decode\<close>, the \<open>TypeError\<close> of subtracting \<open>None\<close>, and an error raised by
  the API client, either by the call or while the stream is iterated.
\<close>

datatype 't exn =
    Exception string "'t event option"
  | UnicodeDecodeError
  | TypeError
  | ApiError string

text \<open>Iterating the stream yields the next event or raises.\<close>

datatype 't item = Yield "'t event" | Raise string

section \<open>Decoding UTF-8\<close>

text \<open>
  \<open>data.decode('utf8')\<close> with the default strict error handler: the well-formed byte
  sequences of UTF-8 (no overlong form, no surrogate, nothing above U+10FFFF) decode to
  their code points, anything else raises \<open>UnicodeDecodeError\<close> (here \<open>None\<close>).
\<close>

definition cont :: "byte \<Rightarrow> bool" where
  "cont b \<longleftrightarrow> 0x80 \<le> b \<and> b \<le> 0xBF"

definition low6 :: "byte \<Rightarrow> nat" where
  "low6 b = unat b mod 64"

fun decode_utf8 :: "byte list \<Rightarrow> str option" where
  "decode_utf8 [] = Some []"
| "decode_utf8 (b0 # bs) =
     (if b0 < 0x80 then map_option (Cons (unat b0)) (decode_utf8 bs)
      else if 0xC2 \<le> b0 \<and> b0 \<le> 0xDF then
        (case bs of
           b1 # r \<Rightarrow>
             if cont b1
             then map_option (Cons ((unat b0 mod 32) * 64 + low6 b1)) (decode_utf8 r)
             else None
         | _ \<Rightarrow> None)
      else if 0xE0 \<le> b0 \<and> b0 \<le> 0xEF then
        (case bs of
           b1 # b2 # r \<Rightarrow>
             if cont b1 \<and> cont b2 \<and> (b0 = 0xE0 \<longrightarrow> 0xA0 \<le> b1) \<and> (b0 = 0xED \<longrightarrow> b1 \<le> 0x9F)
             then map_option (Cons ((unat b0 mod 16) * 4096 + low6 b1 * 64 + low6 b2))
                    (decode_utf8 r)
             else None
         | _ \<Rightarrow> None)
      else if 0xF0 \<le> b0 \<and> b0 \<le> 0xF4 then
        (case bs of
           b1 # b2 # b3 # r \<Rightarrow>
             if cont b1 \<and> cont b2 \<and> cont b3 \<and> (b0 = 0xF0 \<longrightarrow> 0x90 \<le> b1)
                \<and> (b0 = 0xF4 \<longrightarrow> b1 \<le> 0x8F)
             then map_option
                    (Cons ((unat b0 mod 8) * 262144 + low6 b1 * 4096 + low6 b2 * 64 + low6 b3))
                    (decode_utf8 r)
             else None
         | _ \<Rightarrow> None)
      else None)"

section \<open>The event loop of \<open>invoke_agent\<close>\<close>

text \<open>
  The local variables the loop assigns, and the number of clock readings taken so far:
  the \<open>n\<close>-th call of \<open>time.time()\<close> returns \<open>clk n\<close>, counting from 0.
\<close>

record 't locals =
  time_to_first_token :: "'t option"
  time_at_first_token :: "'t option"
  agent_answer :: "str option"
  end_event_received :: bool
  trace_data :: "'t dict list"
  ticks :: nat

definition first_token :: "(nat \<Rightarrow> 't::minus) \<Rightarrow> 't \<Rightarrow> 't locals \<Rightarrow> 't locals" where
  "first_token clk start_time s =
     (if time_to_first_token s = None
      then s\<lparr>time_at_first_token := Some (clk (ticks s)),
             time_to_first_token := Some (clk (ticks s) - start_time),
             ticks := Suc (ticks s)\<rparr>
      else s)"

text \<open>
  \<open>for event in event_stream\<close>: the result is the locals after the last event, or the
  exception that ended the loop, together with the events left unread.
\<close>

fun event_loop ::
  "(nat \<Rightarrow> 't::minus) \<Rightarrow> 't \<Rightarrow> 't item list \<Rightarrow> 't locals \<Rightarrow> ('t exn + 't locals) \<times> 't item list"
where
  "event_loop clk start_time [] s = (Inr s, [])"
| "event_loop clk start_time (Raise msg # rest) s = (Inl (ApiError msg), rest)"
| "event_loop clk start_time (Yield ev # rest) s =
     (case chunk ev of
        Some c \<Rightarrow>
          (let s1 = first_token clk start_time s in
           case decode_utf8 (bytes c) of
             None \<Rightarrow> (Inl UnicodeDecodeError, rest)
           | Some a \<Rightarrow>
               event_loop clk start_time rest
                 (s1\<lparr>agent_answer := Some a, end_event_received := True\<rparr>))
      | None \<Rightarrow>
          (case trace ev of
             Some tr \<Rightarrow>
               event_loop clk start_time rest
                 (s\<lparr>trace_data :=
                      trace_data s @ [AList.update ''start_trace_time'' (VFloat (clk (ticks s))) tr],
                    ticks := Suc (ticks s)\<rparr>)
           | None \<Rightarrow> (Inl (Exception ''Unexpected event.'' (Some ev)), rest)))"

section \<open>\<open>invoke_agent\<close>\<close>

text \<open>
  The keyword arguments of \<open>bedrock_agent_runtime_client.invoke_agent\<close>, and the
  positional arguments of the notebook's \<open>invoke_agent\<close> after the first
  (\<open>enableTrace\<close> and \<open>endSession\<close> carry a suffix here, the request has fields of
  the same names).
\<close>

record 't request =
  inputText :: "'t val"
  agentId :: "'t val"
  agentAliasId :: "'t val"
  sessionId :: "'t val"
  enableTrace :: "'t val"
  endSession :: "'t val"

record 't agent_args =
  agent_id :: "'t val"
  agent_alias_id :: "'t val"
  session_id :: "'t val"
  enableTrace_arg :: "'t val"
  endSession_arg :: "'t val"
  agent_config :: "'t val"

text \<open>
  The response of the API is a dictionary: the code reads its keys \<open>completion\<close> (the
  event stream, here the items it will yield) and \<open>ResponseMetadata\<close> (a dictionary);
  \<open>other_fields\<close> are its remaining keys.
\<close>

record 't agent_response =
  ResponseMetadata :: "'t dict"
  completion :: "'t item list"
  other_fields :: "'t dict"

type_synonym 't returned = "'t dict \<times> str option \<times> 't dict list"

definition init_locals :: "'t locals" where
  "init_locals =
     \<lparr>time_to_first_token = None, time_at_first_token = None, agent_answer = None,
      end_event_received = False, trace_data = [], ticks = 1\<rparr>"

definition opt_float :: "'t option \<Rightarrow> 't val" where
  "opt_float x = (case x of None \<Rightarrow> VNone | Some t \<Rightarrow> VFloat t)"

text \<open>
  The body of the \<open>try\<close> after the API call has returned \<open>agentResponse\<close>, with
  \<open>start_time = clk 0\<close>: the value the function will return or the exception raised,
  the response object as the body leaves it, and the items of the stream left unread.
\<close>

definition process_response ::
  "(nat \<Rightarrow> 't::minus) \<Rightarrow> 't agent_response \<Rightarrow>
     ('t exn + 't returned) \<times> 't agent_response \<times> 't item list"
where
  "process_response clk agentResponse =
     (case event_loop clk (clk 0) (completion agentResponse) init_locals of
        (Inl e, rest) \<Rightarrow> (Inl e, agentResponse, rest)
      | (Inr s, rest) \<Rightarrow>
          if \<not> end_event_received s
          then (Inl (Exception ''End event not received.'' None), agentResponse, rest)
          else
            (let r1 = agentResponse\<lparr>ResponseMetadata :=
                        AList.update ''time_to_first_token'' (opt_float (time_to_first_token s))
                          (ResponseMetadata agentResponse)\<rparr>
             in case time_at_first_token s of
                  None \<Rightarrow> (Inl TypeError, r1, rest)
                | Some t1 \<Rightarrow>
                    (let r2 = r1\<lparr>ResponseMetadata :=
                                AList.update ''time_to_last_token'' (VFloat (clk (ticks s) - t1))
                                  (ResponseMetadata r1)\<rparr>
                     in (Inr (ResponseMetadata r2, agent_answer s, trace_data s), r2, rest))))"

text \<open>\<open>except Exception as e: raise e\<close>.\<close>

definition raise_again :: "'t exn \<Rightarrow> 't exn + 'a" where
  "raise_again e = Inl e"

text \<open>
  The undecorated function. \<open>api\<close> is the agent runtime client: it raises or returns a
  response. Besides the result, the model gives the response object and the unread
  items when the API call returned.
\<close>

definition invoke_agent ::
  "(nat \<Rightarrow> 't::minus) \<Rightarrow> ('t request \<Rightarrow> 't exn + 't agent_response) \<Rightarrow>
     't val \<Rightarrow> 't agent_args \<Rightarrow>
     ('t exn + 't returned) \<times> ('t agent_response \<times> 't item list) option"
where
  "invoke_agent clk api query_to_agent args =
     (case api \<lparr>inputText = query_to_agent, agentId = agent_id args,
                 agentAliasId = agent_alias_id args, sessionId = session_id args,
                 enableTrace = enableTrace_arg args, endSession = endSession_arg args\<rparr> of
        Inl e \<Rightarrow> (raise_again e, None)
      | Inr agentResponse \<Rightarrow>
          (case process_response clk agentResponse of
             (Inl e, after) \<Rightarrow> (raise_again e, Some after)
           | (Inr v, after) \<Rightarrow> (Inr v, Some after)))"

text \<open>The two feedback functions of the notebook: their body is \<open>pass\<close>.\<close>

definition observation_level_feedback :: "'t val \<Rightarrow> unit \<Rightarrow> 't exn + 't val" where
  "observation_level_feedback feedback u = Inr VNone"

definition session_level_feedback :: "'t val \<Rightarrow> unit \<Rightarrow> 't exn + 't val" where
  "session_level_feedback feedback u = Inr VNone"

section \<open>The decorator \<open>bedrock_logs.watch\<close>\<close>

text \<open>
  Modelled from the spec: the Invocation Record of section 3, which the decorator of the
  module \<open>observability\<close> (not among the source files) writes on each wrapped call.
\<close>

record 't invocation_record =
  run_id :: str
  observation_id :: str
  call_type :: string
  captured_input :: "'t val"
  captured_output :: "'t val"
  timestamp :: 't

text \<open>
  Modelled from the spec: what one wrapped call mints, its two identifiers (opaque
  tokens) and the time it stamps. The specification does not say how they are minted.
\<close>

record 't minted =
  new_run_id :: str
  new_observation_id :: str
  now :: 't

text \<open>
  Modelled from the spec: the decorator \<open>BedrockLogs.watch\<close> of the module
  \<open>observability\<close>, which the notebook imports and which is not among the source
  files. Section 4.1 of the specification: the wrapped callable reads only the first
  positional argument as loggable input, executes the original callable, on success
  writes an Invocation Record (section 3) to the append-only sink and returns the
  original result with the newly minted \<open>run_id\<close> and \<open>observation_id\<close>; an exception
  of the callable propagates unchanged, and nothing is said of the sink then. The
  notebook constructs the object with \<open>feedback_variables=True\<close> and unpacks four
  values from the wrapped call: \<open>results, log, run_id, observation_id\<close>. The
  identifiers and the timestamp of a call are inputs of the model (\<open>fresh\<close>).
\<close>

definition watch ::
  "string \<Rightarrow> ('t val \<Rightarrow> 'b \<Rightarrow> 't exn + 't val) \<Rightarrow> 't minted \<Rightarrow> 't val \<Rightarrow> 'b \<Rightarrow>
     't invocation_record list \<Rightarrow>
     't exn + ('t val \<times> 't invocation_record \<times> 't val \<times> 't val) \<times> 't invocation_record list"
where
  "watch ct func fresh first_arg trailing sink =
     (case func first_arg trailing of
        Inl e \<Rightarrow> Inl e
      | Inr result \<Rightarrow>
          (let log = \<lparr>run_id = new_run_id fresh, observation_id = new_observation_id fresh,
                       call_type = ct, captured_input = first_arg,
                       captured_output = result, timestamp = now fresh\<rparr>
           in Inr ((result, log, VStr (new_run_id fresh), VStr (new_observation_id fresh)),
                   sink @ [log])))"

text \<open>
  Modelled from the spec: the join of a Feedback Record to the Invocation Records at
  query time (section 3), through the \<open>f_run_id\<close> and \<open>f_observation_id\<close> of the
  feedback payload; the query is not among the source files. The result is the records
  of the sink the payload refers to.
\<close>

definition referenced_records :: "'t val \<Rightarrow> 't invocation_record list \<Rightarrow> 't invocation_record list" where
  "referenced_records feedback sink =
     (case feedback of
        VDict d \<Rightarrow>
          filter (\<lambda>r. map_of d ''f_run_id'' = Some (VStr (run_id r)) \<or>
                      map_of d ''f_observation_id'' = Some (VStr (observation_id r))) sink
      | _ \<Rightarrow> [])"

text \<open>The tuple \<open>invoke_agent\<close> returns, as the Python value the decorator sees.\<close>

definition tuple_val :: "'t returned \<Rightarrow> 't val" where
  "tuple_val r =
     (case r of (rm, answer, traces) \<Rightarrow>
        VTuple [VDict rm, (case answer of None \<Rightarrow> VNone | Some a \<Rightarrow> VStr a),
                VList (map VDict traces)])"

text \<open>\<open>@bedrock_logs.watch(call_type='agent-in-prod') def invoke_agent(...)\<close>.\<close>

definition invoke_agent_watched ::
  "(nat \<Rightarrow> 't::minus) \<Rightarrow> ('t request \<Rightarrow> 't exn + 't agent_response) \<Rightarrow> 't minted \<Rightarrow>
     't val \<Rightarrow> 't agent_args \<Rightarrow> 't invocation_record list \<Rightarrow>
     't exn + ('t val \<times> 't invocation_record \<times> 't val \<times> 't val) \<times> 't invocation_record list"
where
  "invoke_agent_watched clk api =
     watch ''agent-in-prod''
       (\<lambda>q args. map_sum id tuple_val (fst (invoke_agent clk api q args)))"

section \<open>Describing a stream\<close>

text \<open>
  The branch an event takes: a \<open>chunk\<close> event has the key \<open>chunk\<close>; a \<open>trace\<close> event
  takes the \<open>elif\<close> branch, so it has the key \<open>trace\<close> and not the key \<open>chunk\<close>; an
  unrecognized event has neither key.
\<close>

definition is_chunk :: "'t event \<Rightarrow> bool" where
  "is_chunk ev \<longleftrightarrow> chunk ev \<noteq> None"

definition is_trace :: "'t event \<Rightarrow> bool" where
  "is_trace ev \<longleftrightarrow> chunk ev = None \<and> trace ev \<noteq> None"

definition unrecognized :: "'t event \<Rightarrow> bool" where
  "unrecognized ev \<longleftrightarrow> chunk ev = None \<and> trace ev = None"

fun chunk_of :: "'t item \<Rightarrow> 't chunk_payload option" where
  "chunk_of (Yield ev) = chunk ev"
| "chunk_of (Raise msg) = None"

fun trace_of :: "'t item \<Rightarrow> 't dict option" where
  "trace_of (Yield ev) = (if chunk ev = None then trace ev else None)"
| "trace_of (Raise msg) = None"

text \<open>The payloads of the chunk events and of the trace events, in stream order.\<close>

definition chunks :: "'t item list \<Rightarrow> 't chunk_payload list" where
  "chunks items = List.map_filter chunk_of items"

definition traces :: "'t item list \<Rightarrow> 't dict list" where
  "traces items = List.map_filter trace_of items"

text \<open>An item the loop body handles without raising.\<close>

fun handled :: "'t item \<Rightarrow> bool" where
  "handled (Yield ev) =
     (case chunk ev of Some c \<Rightarrow> decode_utf8 (bytes c) \<noteq> None | None \<Rightarrow> trace ev \<noteq> None)"
| "handled (Raise msg) = False"

text \<open>A trace dictionary after \<open>trace['start_trace_time'] = time.time()\<close>.\<close>

definition stamp :: "(nat \<Rightarrow> 't) \<Rightarrow> nat \<times> 't dict \<Rightarrow> 't dict" where
  "stamp clk p = AList.update ''start_trace_time'' (VFloat (clk (fst p))) (snd p)"

text \<open>The request \<open>invoke_agent\<close> sends.\<close>

definition request_of :: "'t val \<Rightarrow> 't agent_args \<Rightarrow> 't request" where
  "request_of q args =
     \<lparr>inputText = q, agentId = agent_id args, agentAliasId = agent_alias_id args,
      sessionId = session_id args, enableTrace = enableTrace_arg args,
      endSession = endSession_arg args\<rparr>"

text \<open>
  What holds of the two timing variables between iterations: they are set together, and
  they are set once a chunk has been received.
\<close>

definition timed :: "'t locals \<Rightarrow> bool" where
  "timed s \<longleftrightarrow>
     (time_to_first_token s = None \<longleftrightarrow> time_at_first_token s = None) \<and>
     (end_event_received s \<longrightarrow> time_to_first_token s \<noteq> None)"

section \<open>Example inputs\<close>

text \<open>
  API clients that return a given response or raise a given exception, a clock whose
  \<open>n\<close>-th reading is \<open>int n\<close>, and small events, responses and arguments.
\<close>

definition api_returning :: "'t agent_response \<Rightarrow> 't request \<Rightarrow> 't exn + 't agent_response" where
  "api_returning resp req = Inr resp"

definition api_raising :: "'t exn \<Rightarrow> 't request \<Rightarrow> 't exn + 't agent_response" where
  "api_raising e req = Inl e"

abbreviation ev_trace :: "int \<Rightarrow> int event" where
  "ev_trace n \<equiv> \<lparr>chunk = None, trace = Some [(''traceId'', VInt n)], other_keys = []\<rparr>"

abbreviation ev_chunk :: "byte list \<Rightarrow> int event" where
  "ev_chunk bs \<equiv> \<lparr>chunk = Some \<lparr>bytes = bs, attribution = []\<rparr>, trace = None, other_keys = []\<rparr>"

abbreviation ev_other :: "int event" where
  "ev_other \<equiv> \<lparr>chunk = None, trace = None, other_keys = [(''returnControl'', VNone)]\<rparr>"

abbreviation resp_of :: "int item list \<Rightarrow> int agent_response" where
  "resp_of items \<equiv> \<lparr>ResponseMetadata = [(''RequestId'', VInt 1)], completion = items,
      other_fields = [(''sessionId'', VInt 5)]\<rparr>"

abbreviation args0 :: "int agent_args" where
  "args0 \<equiv> \<lparr>agent_id = VNone, agent_alias_id = VNone, session_id = VNone,
     enableTrace_arg = VBool True, endSession_arg = VBool False, agent_config = VNone\<rparr>"

abbreviation fresh1 :: "int minted" where
  "fresh1 \<equiv> \<lparr>new_run_id = [1], new_observation_id = [2], now = 100\<rparr>"

abbreviation fresh2 :: "int minted" where
  "fresh2 \<equiv> \<lparr>new_run_id = [3], new_observation_id = [4], now = 200\<rparr>"

abbreviation args1 :: "int agent_args" where
  "args1 \<equiv> \<lparr>agent_id = VStr [65], agent_alias_id = VStr [66], session_id = VStr [67],
     enableTrace_arg = VBool True, endSession_arg = VBool False, agent_config = VNone\<rparr>"

abbreviation stream_a :: "int item list" where
  "stream_a \<equiv> [Yield (ev_chunk [0x48]), Yield (ev_trace 7), Yield (ev_chunk [0xC3, 0xA9])]"

abbreviation stream_b :: "int item list" where
  "stream_b \<equiv> [Yield (ev_trace 7), Yield (ev_chunk [0x48]), Yield (ev_chunk [0x69])]"

abbreviation stream_hi :: "int item list" where
  "stream_hi \<equiv> [Yield (ev_chunk [0x48, 0x69])]"

abbreviation hi_output :: "int val" where
  "hi_output \<equiv>
     VTuple [VDict [(''RequestId'', VInt 1), (''time_to_first_token'', VFloat 1),
                    (''time_to_last_token'', VFloat 1)],
             VStr [72, 105], VList []]"

abbreviation hi_log :: "int minted \<Rightarrow> int invocation_record" where
  "hi_log m \<equiv>
     \<lparr>run_id = new_run_id m, observation_id = new_observation_id m, call_type = ''agent-in-prod'',
      captured_input = VStr [81], captured_output = hi_output, timestamp = now m\<rparr>"

abbreviation dangling_feedback :: "int val" where
  "dangling_feedback \<equiv>
     VDict [(''user_id'', VStr [85]), (''f_run_id'', VStr [9]), (''f_observation_id'', VStr [9]),
            (''actual_feedback'', VStr [84])]"

text \<open>A callable that raises the given exception, whatever its arguments.\<close>

definition failing_callable :: "'t exn \<Rightarrow> 't val \<Rightarrow> unit \<Rightarrow> 't exn + 't val" where
  "failing_callable e a u = Inl e"

text \<open>A callable that returns its trailing argument.\<close>

definition returning_trailing :: "'t val \<Rightarrow> 't val \<Rightarrow> 't exn + 't val" where
  "returning_trailing first_arg trailing = Inr trailing"

text \<open>
  An API client whose stream has a trace event that carries the session identifier of
  the request, followed by one chunk.
\<close>

definition api_echoing :: "'t request \<Rightarrow> 't exn + 't agent_response" where
  "api_echoing req =
     Inr \<lparr>ResponseMetadata = [],
          completion =
            [Yield \<lparr>chunk = None, trace = Some [(''sessionId'', sessionId req)], other_keys = []\<rparr>,
             Yield \<lparr>chunk = Some \<lparr>bytes = [0x48, 0x69], attribution = []\<rparr>, trace = None,
                    other_keys = []\<rparr>],
          other_fields = []\<rparr>"

section \<open>Properties of the event loop\<close>

lemma event_loop_append:
  "event_loop clk t0 (xs @ ys) s =
     (case event_loop clk t0 xs s of
        (Inl e, rest) \<Rightarrow> (Inl e, rest @ ys)
      | (Inr s', rest) \<Rightarrow> event_loop clk t0 ys s')"
proof (induction xs arbitrary: s)
  case Nil
  show ?case by simp
next
  case (Cons x xs)
  show ?case
  proof (cases x)
    case (Yield ev)
    then show ?thesis using Cons.IH
      by (simp split: option.splits add: Let_def)
  next
    case (Raise m)
    then show ?thesis by simp
  qed
qed

lemma success_unread:
  "event_loop clk t0 items s = (Inr s', rest) \<Longrightarrow> rest = [] \<and> (\<forall>it\<in>set items. handled it)"
proof (induction items arbitrary: s)
  case Nil
  then show ?case by simp
next
  case (Cons x xs)
  show ?case
  proof (cases x)
    case (Yield ev)
    then show ?thesis using Cons.prems Cons.IH
      by (auto split: option.splits simp: Let_def)
  next
    case (Raise m)
    then show ?thesis using Cons.prems by simp
  qed
qed

lemma handled_success:
  "\<forall>it\<in>set items. handled it \<Longrightarrow> \<exists>s'. event_loop clk t0 items s = (Inr s', [])"
proof (induction items arbitrary: s)
  case Nil
  then show ?case by simp
next
  case (Cons x xs)
  show ?case
  proof (cases x)
    case (Yield ev)
    then show ?thesis using Cons.prems Cons.IH
      by (auto split: option.splits simp: Let_def)
  next
    case (Raise m)
    then show ?thesis using Cons.prems by simp
  qed
qed

lemma end_event_iff:
  "event_loop clk t0 items s = (Inr s', rest) \<Longrightarrow>
     end_event_received s' = (end_event_received s \<or> chunks items \<noteq> [])"
proof (induction items arbitrary: s)
  case Nil
  then show ?case by (simp add: chunks_def)
next
  case (Cons x xs)
  show ?case
  proof (cases x)
    case (Yield ev)
    then show ?thesis using Cons.prems Cons.IH
      by (auto split: option.splits simp: Let_def chunks_def)
  next
    case (Raise m)
    then show ?thesis using Cons.prems by simp
  qed
qed

lemma timed_init: "timed init_locals"
  by (simp add: timed_def init_locals_def)

lemma timed_loop:
  "event_loop clk t0 items s = (Inr s', rest) \<Longrightarrow> timed s \<Longrightarrow> timed s'"
proof (induction items arbitrary: s)
  case Nil
  then show ?case by simp
next
  case (Cons x xs)
  show ?case
  proof (cases x)
    case (Yield ev)
    show ?thesis
    proof (cases "chunk ev")
      case None
      with Yield Cons.prems obtain tr where tr: "trace ev = Some tr"
        by (auto split: option.splits)
      let ?s1 = "s\<lparr>trace_data := trace_data s @ [AList.update ''start_trace_time'' (VFloat (clk (ticks s))) tr],
                    ticks := Suc (ticks s)\<rparr>"
      have "event_loop clk t0 xs ?s1 = (Inr s', rest)"
        using Cons.prems(1) Yield None tr by simp
      moreover have "timed ?s1" using Cons.prems(2) by (auto simp: timed_def)
      ultimately show ?thesis by (rule Cons.IH)
    next
      case (Some c)
      with Yield Cons.prems obtain a where a: "decode_utf8 (bytes c) = Some a"
        by (auto split: option.splits simp: Let_def)
      let ?s2 = "(first_token clk t0 s)\<lparr>agent_answer := Some a, end_event_received := True\<rparr>"
      have "event_loop clk t0 xs ?s2 = (Inr s', rest)"
        using Cons.prems(1) Yield Some a by (simp add: Let_def)
      moreover have "timed ?s2" using Cons.prems(2) by (auto simp: timed_def first_token_def)
      ultimately show ?thesis by (rule Cons.IH)
    qed
  next
    case (Raise m)
    then show ?thesis using Cons.prems by simp
  qed
qed

lemma first_token_kept:
  "event_loop clk t0 items s = (Inr s', rest) \<Longrightarrow> time_to_first_token s \<noteq> None \<Longrightarrow>
     time_to_first_token s' = time_to_first_token s \<and> time_at_first_token s' = time_at_first_token s"
proof (induction items arbitrary: s)
  case Nil
  then show ?case by simp
next
  case (Cons x xs)
  show ?case
  proof (cases x)
    case (Yield ev)
    then show ?thesis using Cons.prems Cons.IH
      by (auto split: option.splits simp: Let_def first_token_def)
  next
    case (Raise m)
    then show ?thesis using Cons.prems by simp
  qed
qed

lemma no_chunk_loop:
  "event_loop clk t0 items s = (Inr s', rest) \<Longrightarrow> chunks items = [] \<Longrightarrow>
     ticks s' = ticks s + length items \<and>
     time_to_first_token s' = time_to_first_token s \<and>
     time_at_first_token s' = time_at_first_token s"
proof (induction items arbitrary: s)
  case Nil
  then show ?case by simp
next
  case (Cons x xs)
  show ?case
  proof (cases x)
    case (Yield ev)
    then show ?thesis using Cons.prems Cons.IH
      by (fastforce split: option.splits simp: chunks_def)
  next
    case (Raise m)
    then show ?thesis using Cons.prems by simp
  qed
qed

lemma chunks_Cons:
  "chunks (x # xs) = (case chunk_of x of None \<Rightarrow> chunks xs | Some c \<Rightarrow> c # chunks xs)"
  by (simp add: chunks_def split: option.splits)

lemma answer_loop:
  "event_loop clk t0 items s = (Inr s', rest) \<Longrightarrow>
     agent_answer s' =
       (if chunks items = [] then agent_answer s else decode_utf8 (bytes (last (chunks items)))) \<and>
     (chunks items \<noteq> [] \<longrightarrow> decode_utf8 (bytes (last (chunks items))) \<noteq> None)"
proof (induction items arbitrary: s)
  case Nil
  then show ?case by (simp add: chunks_def)
next
  case (Cons x xs)
  show ?case
  proof (cases x)
    case (Yield ev)
    show ?thesis
    proof (cases "chunk ev")
      case None
      with Yield Cons.prems obtain tr where tr: "trace ev = Some tr"
        by (auto split: option.splits)
      let ?s1 = "s\<lparr>trace_data := trace_data s @ [AList.update ''start_trace_time'' (VFloat (clk (ticks s))) tr],
                    ticks := Suc (ticks s)\<rparr>"
      have "event_loop clk t0 xs ?s1 = (Inr s', rest)"
        using Cons.prems(1) Yield None tr by simp
      note ih = Cons.IH[OF this]
      show ?thesis
      proof (cases "chunks xs = []")
        case True
        with ih Yield None show ?thesis by (simp add: chunks_Cons)
      next
        case False
        with ih Yield None show ?thesis by (auto simp: chunks_Cons)
      qed
    next
      case (Some c)
      with Yield Cons.prems obtain a where a: "decode_utf8 (bytes c) = Some a"
        by (auto split: option.splits simp: Let_def)
      let ?s2 = "(first_token clk t0 s)\<lparr>agent_answer := Some a, end_event_received := True\<rparr>"
      have "event_loop clk t0 xs ?s2 = (Inr s', rest)"
        using Cons.prems(1) Yield Some a by (simp add: Let_def)
      note ih = Cons.IH[OF this]
      show ?thesis
      proof (cases "chunks xs = []")
        case True
        with ih Yield Some a show ?thesis by (simp add: chunks_Cons)
      next
        case False
        with ih Yield Some a show ?thesis by (auto simp: chunks_Cons)
      qed
    qed
  next
    case (Raise m)
    then show ?thesis using Cons.prems by simp
  qed
qed

lemma trace_data_loop:
  "event_loop clk t0 items s = (Inr s', rest) \<Longrightarrow>
     \<exists>ns. length ns = length (traces items) \<and>
          trace_data s' = trace_data s @ map (stamp clk) (zip ns (traces items)) \<and>
          sorted_wrt (<) ns \<and> (\<forall>n\<in>set ns. ticks s \<le> n \<and> n < ticks s') \<and> ticks s \<le> ticks s'"
proof (induction items arbitrary: s)
  case Nil
  then show ?case by (simp add: traces_def)
next
  case (Cons x xs)
  show ?case
  proof (cases x)
    case (Yield ev)
    show ?thesis
    proof (cases "chunk ev")
      case None
      with Yield Cons.prems obtain tr where tr: "trace ev = Some tr"
        by (auto split: option.splits)
      let ?s1 = "s\<lparr>trace_data := trace_data s @ [AList.update ''start_trace_time'' (VFloat (clk (ticks s))) tr],
                    ticks := Suc (ticks s)\<rparr>"
      have "event_loop clk t0 xs ?s1 = (Inr s', rest)"
        using Cons.prems(1) Yield None tr by simp
      from Cons.IH[OF this] obtain ns where ns:
        "length ns = length (traces xs)"
        "trace_data s' = trace_data ?s1 @ map (stamp clk) (zip ns (traces xs))"
        "sorted_wrt (<) ns" "\<forall>n\<in>set ns. ticks ?s1 \<le> n \<and> n < ticks s'" "ticks ?s1 \<le> ticks s'"
        by blast
      have tx: "traces (x # xs) = tr # traces xs"
        using Yield None tr by (simp add: traces_def)
      have "length (ticks s # ns) = length (traces (x # xs)) \<and>
          trace_data s' = trace_data s @ map (stamp clk) (zip (ticks s # ns) (traces (x # xs))) \<and>
          sorted_wrt (<) (ticks s # ns) \<and> (\<forall>n\<in>set (ticks s # ns). ticks s \<le> n \<and> n < ticks s') \<and> ticks s \<le> ticks s'"
        using ns tx by (auto simp: stamp_def)
      then show ?thesis by blast
    next
      case (Some c)
      with Yield Cons.prems obtain a where a: "decode_utf8 (bytes c) = Some a"
        by (auto split: option.splits simp: Let_def)
      let ?s2 = "(first_token clk t0 s)\<lparr>agent_answer := Some a, end_event_received := True\<rparr>"
      have "event_loop clk t0 xs ?s2 = (Inr s', rest)"
        using Cons.prems(1) Yield Some a by (simp add: Let_def)
      from Cons.IH[OF this] obtain ns where ns:
        "length ns = length (traces xs)"
        "trace_data s' = trace_data ?s2 @ map (stamp clk) (zip ns (traces xs))"
        "sorted_wrt (<) ns" "\<forall>n\<in>set ns. ticks ?s2 \<le> n \<and> n < ticks s'" "ticks ?s2 \<le> ticks s'"
        by blast
      have tx: "traces (x # xs) = traces xs"
        using Yield Some by (simp add: traces_def)
      have t2: "ticks s \<le> ticks ?s2" "trace_data ?s2 = trace_data s"
        by (simp_all add: first_token_def)
      have "length ns = length (traces (x # xs)) \<and>
          trace_data s' = trace_data s @ map (stamp clk) (zip ns (traces (x # xs))) \<and>
          sorted_wrt (<) ns \<and> (\<forall>n\<in>set ns. ticks s \<le> n \<and> n < ticks s') \<and> ticks s \<le> ticks s'"
        using ns tx t2 by (auto simp: order.trans)
      then show ?thesis by blast
    qed
  next
    case (Raise m)
    then show ?thesis using Cons.prems by simp
  qed
qed

lemma invoke_agent_returned:
  "api (request_of q args) = Inr resp \<Longrightarrow>
     invoke_agent clk api q args =
       (case process_response clk resp of
          (Inl e, after) \<Rightarrow> (Inl e, Some after)
        | (Inr v, after) \<Rightarrow> (Inr v, Some after))"
  by (simp add: invoke_agent_def request_of_def raise_again_def split: prod.splits sum.splits)

lemma invoke_agent_raised:
  "api (request_of q args) = Inl e \<Longrightarrow> invoke_agent clk api q args = (Inl e, None)"
  by (simp add: invoke_agent_def request_of_def raise_again_def)

lemma process_response_success:
  assumes "process_response clk resp = (Inr (rm, ans, trs), after)"
  shows "\<exists>s' t1 tf.
           event_loop clk (clk 0) (completion resp) init_locals = (Inr s', []) \<and>
           end_event_received s' \<and> time_at_first_token s' = Some t1 \<and>
           time_to_first_token s' = Some tf \<and>
           rm = AList.update ''time_to_last_token'' (VFloat (clk (ticks s') - t1))
                  (AList.update ''time_to_first_token'' (VFloat tf) (ResponseMetadata resp)) \<and>
           ans = agent_answer s' \<and> trs = trace_data s' \<and>
           after = (resp\<lparr>ResponseMetadata := rm\<rparr>, [])"
proof -
  obtain r rest where lp: "event_loop clk (clk 0) (completion resp) init_locals = (r, rest)"
    by (cases "event_loop clk (clk 0) (completion resp) init_locals")
  show ?thesis
  proof (cases r)
    case (Inl e)
    with lp assms show ?thesis by (simp add: process_response_def)
  next
    case (Inr s')
    with lp have lp': "event_loop clk (clk 0) (completion resp) init_locals = (Inr s', rest)"
      by simp
    have rest: "rest = []" using success_unread[OF lp'] by simp
    have tm: "timed s'" using timed_loop[OF lp' timed_init] .
    have ended: "end_event_received s'"
      using assms lp' by (auto simp: process_response_def split: if_splits)
    with tm obtain tf t1 where t: "time_to_first_token s' = Some tf" "time_at_first_token s' = Some t1"
      by (auto simp: timed_def)
    show ?thesis
      using assms lp' rest ended t
      by (auto simp: process_response_def Let_def opt_float_def)
  qed
qed

lemma all_traces_handled:
  "\<forall>it\<in>set items. \<exists>ev. it = Yield ev \<and> is_trace ev \<Longrightarrow>
     (\<forall>it\<in>set items. handled it) \<and> chunks items = []"
proof (induction items)
  case Nil
  show ?case by (simp add: chunks_def)
next
  case (Cons x xs)
  then show ?case by (auto simp: is_trace_def chunks_Cons)
qed


lemma loop_stops_at_unrecognized:
  assumes "\<forall>it\<in>set pre. handled it" and "unrecognized ev"
  shows "event_loop clk t0 (pre @ Yield ev # post) s =
           (Inl (Exception ''Unexpected event.'' (Some ev)), post)"
proof -
  from handled_success[OF assms(1)] obtain s' where "event_loop clk t0 pre s = (Inr s', [])"
    by blast
  then show ?thesis using assms(2)
    by (simp add: event_loop_append unrecognized_def)
qed

lemma loop_stops_at_raise:
  assumes "\<forall>it\<in>set pre. handled it"
  shows "event_loop clk t0 (pre @ Raise msg # post) s = (Inl (ApiError msg), post)"
proof -
  from handled_success[OF assms(1)] obtain s' where "event_loop clk t0 pre s = (Inr s', [])"
    by blast
  then show ?thesis
    by (simp add: event_loop_append)
qed

lemma unhandled_no_success:
  "it \<in> set items \<Longrightarrow> \<not> handled it \<Longrightarrow> \<exists>e rest. event_loop clk t0 items s = (Inl e, rest)"
proof -
  assume a: "it \<in> set items" "\<not> handled it"
  obtain r rest where lp: "event_loop clk t0 items s = (r, rest)"
    by (cases "event_loop clk t0 items s")
  show ?thesis
  proof (cases r)
    case (Inl e)
    with lp show ?thesis by simp
  next
    case (Inr s')
    with lp success_unread[of clk t0 items s s' rest] a show ?thesis by auto
  qed
qed


lemmas run_simps = invoke_agent_def api_returning_def process_response_def init_locals_def
  first_token_def opt_float_def raise_again_def Let_def

lemma process_response_total:
  assumes "event_loop clk (clk 0) (completion resp) init_locals = (Inr s', rest)"
    and "end_event_received s'"
  shows "\<exists>rm. process_response clk resp =
           (Inr (rm, agent_answer s', trace_data s'), resp\<lparr>ResponseMetadata := rm\<rparr>, [])"
proof -
  have rest: "rest = []" using success_unread[OF assms(1)] by simp
  have "timed s'" using timed_loop[OF assms(1) timed_init] .
  with assms(2) obtain t1 where "time_at_first_token s' = Some t1"
    by (auto simp: timed_def)
  then show ?thesis using assms rest
    by (simp add: process_response_def Let_def)
qed

lemma set_chunks: "set (chunks items) = {c. \<exists>it\<in>set items. chunk_of it = Some c}"
proof (induction items)
  case Nil
  show ?case by (simp add: chunks_def)
next
  case (Cons x xs)
  then show ?case by (auto simp: chunks_Cons split: option.splits)
qed

lemma decodable_handled:
  assumes "\<forall>it\<in>set items. \<exists>ev. it = Yield ev \<and> (is_chunk ev \<or> is_trace ev)"
    and "\<forall>c\<in>set (chunks items). decode_utf8 (bytes c) \<noteq> None"
  shows "\<forall>it\<in>set items. handled it"
proof
  fix it assume it: "it \<in> set items"
  with assms(1) obtain ev where ev: "it = Yield ev" "is_chunk ev \<or> is_trace ev" by blast
  show "handled it"
  proof (cases "chunk ev")
    case None
    with ev show ?thesis by (simp add: is_chunk_def is_trace_def)
  next
    case (Some c)
    with it ev have "c \<in> set (chunks items)" by (force simp: set_chunks)
    with assms(2) Some ev show ?thesis by simp
  qed
qed

lemma first_chunk_time:
  assumes "event_loop clk t0 (Yield ev # post) s = (Inr s', rest)"
    and "is_chunk ev" and "time_to_first_token s = None"
  shows "time_to_first_token s' = Some (clk (ticks s) - t0)"
proof -
  from assms(2) obtain c where c: "chunk ev = Some c" by (auto simp: is_chunk_def)
  with assms(1) obtain a where a: "decode_utf8 (bytes c) = Some a"
    by (auto split: option.splits simp: Let_def)
  let ?s2 = "(first_token clk t0 s)\<lparr>agent_answer := Some a, end_event_received := True\<rparr>"
  have lp: "event_loop clk t0 post ?s2 = (Inr s', rest)"
    using assms(1) c a by (simp add: Let_def)
  have t: "time_to_first_token ?s2 = Some (clk (ticks s) - t0)"
    using assms(3) by (simp add: first_token_def)
  with first_token_kept[OF lp] show ?thesis by simp
qed

lemma watched_raise:
  "fst (invoke_agent clk api q args) = Inl e \<Longrightarrow> invoke_agent_watched clk api fresh q args sink = Inl e"
  by (simp add: invoke_agent_watched_def watch_def)

lemma first_unhandled:
  assumes "\<not> (\<forall>it\<in>set items. handled it)"
  shows "\<exists>pre x post. items = pre @ x # post \<and> (\<forall>it\<in>set pre. handled it) \<and> \<not> handled x"
proof -
  from assms have "\<exists>x\<in>set items. \<not> handled x" by blast
  from split_list_first_prop[OF this] show ?thesis by blast
qed

lemma chunk_free_item:
  assumes "chunks items = []" and "Yield ev \<in> set items"
  shows "chunk ev = None"
proof (cases "chunk ev")
  case None
  then show ?thesis .
next
  case (Some c)
  with assms(2) have "c \<in> set (chunks items)" by (force simp: set_chunks)
  with assms(1) show ?thesis by simp
qed

lemma chunk_free_prefix: "chunks (pre @ post) = [] \<Longrightarrow> chunks pre = []"
  by (simp add: chunks_def List.map_filter_def)

lemma handled_chunk_free_trace:
  assumes "chunks items = []" and "it \<in> set items" and "handled it"
  shows "\<exists>ev. it = Yield ev \<and> is_trace ev"
proof (cases it)
  case (Yield ev)
  with chunk_free_item[OF assms(1)] assms(2) have "chunk ev = None" by simp
  with assms(3) Yield show ?thesis by (simp add: is_trace_def)
next
  case (Raise m)
  with assms(3) show ?thesis by simp
qed

section \<open>The claims\<close>

subsection \<open>C1: the stream ends without a chunk\<close>

text \<open>
  C1, as stated, fails: a stream with no \<open>chunk\<close> event whose only event is an
  unrecognized one raises \<open>Exception("Unexpected event.", event)\<close>, not
  \<open>Exception("End event not received.")\<close>.
\<close>

theorem unrecognized_event_preempts_end_error:
  "chunks [Yield ev_other] = [] \<and>
   invoke_agent int (api_returning (resp_of [Yield ev_other])) (VStr []) args0 =
     (Inl (Exception ''Unexpected event.'' (Some ev_other)), Some (resp_of [Yield ev_other], [])) \<and>
   fst (invoke_agent int (api_returning (resp_of [Yield ev_other])) (VStr []) args0) \<noteq>
     Inl (Exception ''End event not received.'' None)"
  by (simp add: run_simps chunks_def)

text \<open>
  C1, amended: for every event stream with no \<open>chunk\<close> event, \<open>invoke_agent\<close> raises
  instead of returning a result. When every event of the stream is a \<open>trace\<close> event it
  raises \<open>Exception("End event not received.")\<close>, the stream read to its end. Otherwise
  it stops at the first item that is not a \<open>trace\<close> event: at an unrecognized event it
  raises \<open>Exception("Unexpected event.", event)\<close>, and where the iteration of the stream
  raises an error of the API it raises that error.
\<close>

theorem no_chunk_raises:
  assumes "api (request_of q args) = Inr resp"
    and "chunks (completion resp) = []"
  shows "if \<forall>it\<in>set (completion resp). \<exists>ev. it = Yield ev \<and> is_trace ev
         then invoke_agent clk api q args =
                (Inl (Exception ''End event not received.'' None), Some (resp, []))
         else \<exists>pre x post.
                completion resp = pre @ x # post \<and>
                (\<forall>it\<in>set pre. \<exists>ev'. it = Yield ev' \<and> is_trace ev') \<and>
                (case x of
                   Yield ev \<Rightarrow>
                     unrecognized ev \<and>
                     invoke_agent clk api q args =
                       (Inl (Exception ''Unexpected event.'' (Some ev)), Some (resp, post))
                 | Raise msg \<Rightarrow>
                     invoke_agent clk api q args = (Inl (ApiError msg), Some (resp, post)))"
proof (cases "\<forall>it\<in>set (completion resp). \<exists>ev. it = Yield ev \<and> is_trace ev")
  case True
  from all_traces_handled[OF True]
  have h: "\<forall>it\<in>set (completion resp). handled it" by simp
  from handled_success[OF h] obtain s' where
    lp: "event_loop clk (clk 0) (completion resp) init_locals = (Inr s', [])"
    by blast
  from end_event_iff[OF lp] assms(2) have "\<not> end_event_received s'"
    by (simp add: init_locals_def)
  with lp have "process_response clk resp =
      (Inl (Exception ''End event not received.'' None), resp, [])"
    by (simp add: process_response_def)
  then have "invoke_agent clk api q args =
      (Inl (Exception ''End event not received.'' None), Some (resp, []))"
    using assms(1) by (simp add: invoke_agent_returned[of api q args resp])
  with True show ?thesis by simp
next
  case False
  have nh: "\<not> (\<forall>it\<in>set (completion resp). handled it)"
    using False handled_chunk_free_trace[OF assms(2)] by blast
  from first_unhandled[OF nh] obtain pre x post where
    sp: "completion resp = pre @ x # post" "\<forall>it\<in>set pre. handled it" "\<not> handled x"
    by blast
  have cp: "chunks pre = []"
    using assms(2) sp(1) chunk_free_prefix[of pre "x # post"] by simp
  have tr: "\<forall>it\<in>set pre. \<exists>ev'. it = Yield ev' \<and> is_trace ev'"
    using sp(2) handled_chunk_free_trace[OF cp] by blast
  have "case x of
          Yield ev \<Rightarrow>
            unrecognized ev \<and>
            invoke_agent clk api q args =
              (Inl (Exception ''Unexpected event.'' (Some ev)), Some (resp, post))
        | Raise msg \<Rightarrow>
            invoke_agent clk api q args = (Inl (ApiError msg), Some (resp, post))"
  proof (cases x)
    case (Yield ev)
    have "chunk ev = None"
      using chunk_free_item[OF assms(2), of ev] sp(1) Yield by simp
    with sp(3) Yield have un: "unrecognized ev"
      by (simp add: unrecognized_def)
    have "event_loop clk (clk 0) (completion resp) init_locals =
        (Inl (Exception ''Unexpected event.'' (Some ev)), post)"
      using loop_stops_at_unrecognized[OF sp(2) un] sp(1) Yield by simp
    then have "process_response clk resp =
        (Inl (Exception ''Unexpected event.'' (Some ev)), resp, post)"
      by (simp add: process_response_def)
    then have "invoke_agent clk api q args =
        (Inl (Exception ''Unexpected event.'' (Some ev)), Some (resp, post))"
      using assms(1) by (simp add: invoke_agent_returned[of api q args resp])
    with un Yield show ?thesis by simp
  next
    case (Raise msg)
    have "event_loop clk (clk 0) (completion resp) init_locals = (Inl (ApiError msg), post)"
      using loop_stops_at_raise[OF sp(2)] sp(1) Raise by simp
    then have "process_response clk resp = (Inl (ApiError msg), resp, post)"
      by (simp add: process_response_def)
    then have "invoke_agent clk api q args = (Inl (ApiError msg), Some (resp, post))"
      using assms(1) by (simp add: invoke_agent_returned[of api q args resp])
    with Raise show ?thesis by simp
  qed
  with False sp(1) tr show ?thesis by auto
qed

theorem no_chunk_raises_witness:
  "invoke_agent int (api_returning (resp_of [Yield (ev_trace 7), Yield (ev_trace 8)])) (VStr []) args0 =
     (Inl (Exception ''End event not received.'' None),
      Some (resp_of [Yield (ev_trace 7), Yield (ev_trace 8)], [])) \<and>
   (\<exists>pre x post.
      completion (resp_of [Yield (ev_trace 7), Yield ev_other, Yield (ev_trace 8)]) = pre @ x # post \<and>
      (\<forall>it\<in>set pre. \<exists>ev'. it = Yield ev' \<and> is_trace ev') \<and>
      (case x of
         Yield ev \<Rightarrow>
           unrecognized ev \<and>
           invoke_agent int (api_returning (resp_of [Yield (ev_trace 7), Yield ev_other, Yield (ev_trace 8)]))
               (VStr []) args0 =
             (Inl (Exception ''Unexpected event.'' (Some ev)),
              Some (resp_of [Yield (ev_trace 7), Yield ev_other, Yield (ev_trace 8)], post))
       | Raise msg \<Rightarrow>
           invoke_agent int (api_returning (resp_of [Yield (ev_trace 7), Yield ev_other, Yield (ev_trace 8)]))
               (VStr []) args0 =
             (Inl (ApiError msg),
              Some (resp_of [Yield (ev_trace 7), Yield ev_other, Yield (ev_trace 8)], post)))) \<and>
   invoke_agent int (api_returning (resp_of [Yield (ev_trace 7), Yield ev_other, Yield (ev_trace 8)]))
       (VStr []) args0 =
     (Inl (Exception ''Unexpected event.'' (Some ev_other)),
      Some (resp_of [Yield (ev_trace 7), Yield ev_other, Yield (ev_trace 8)], [Yield (ev_trace 8)])) \<and>
   (\<exists>pre x post.
      completion (resp_of [Yield (ev_trace 7), Raise ''throttlingException'', Yield (ev_trace 8)]) =
        pre @ x # post \<and>
      (\<forall>it\<in>set pre. \<exists>ev'. it = Yield ev' \<and> is_trace ev') \<and>
      (case x of
         Yield ev \<Rightarrow>
           unrecognized ev \<and>
           invoke_agent int
               (api_returning (resp_of [Yield (ev_trace 7), Raise ''throttlingException'', Yield (ev_trace 8)]))
               (VStr []) args0 =
             (Inl (Exception ''Unexpected event.'' (Some ev)),
              Some (resp_of [Yield (ev_trace 7), Raise ''throttlingException'', Yield (ev_trace 8)], post))
       | Raise msg \<Rightarrow>
           invoke_agent int
               (api_returning (resp_of [Yield (ev_trace 7), Raise ''throttlingException'', Yield (ev_trace 8)]))
               (VStr []) args0 =
             (Inl (ApiError msg),
              Some (resp_of [Yield (ev_trace 7), Raise ''throttlingException'', Yield (ev_trace 8)], post)))) \<and>
   invoke_agent int
       (api_returning (resp_of [Yield (ev_trace 7), Raise ''throttlingException'', Yield (ev_trace 8)]))
       (VStr []) args0 =
     (Inl (ApiError ''throttlingException''),
      Some (resp_of [Yield (ev_trace 7), Raise ''throttlingException'', Yield (ev_trace 8)],
            [Yield (ev_trace 8)]))"
proof -
  have a1: "api_returning (resp_of [Yield (ev_trace 7), Yield (ev_trace 8)]) (request_of (VStr []) args0) =
      Inr (resp_of [Yield (ev_trace 7), Yield (ev_trace 8)])"
    by (simp add: api_returning_def)
  have b1: "chunks (completion (resp_of [Yield (ev_trace 7), Yield (ev_trace 8)])) = []"
    by (simp add: chunks_def)
  have d1: "\<forall>it\<in>set (completion (resp_of [Yield (ev_trace 7), Yield (ev_trace 8)])).
              \<exists>ev. it = Yield ev \<and> is_trace ev"
    by (simp add: is_trace_def)
  have a2: "api_returning (resp_of [Yield (ev_trace 7), Yield ev_other, Yield (ev_trace 8)])
        (request_of (VStr []) args0) =
      Inr (resp_of [Yield (ev_trace 7), Yield ev_other, Yield (ev_trace 8)])"
    by (simp add: api_returning_def)
  have b2: "chunks (completion (resp_of [Yield (ev_trace 7), Yield ev_other, Yield (ev_trace 8)])) = []"
    by (simp add: chunks_def)
  have d2: "\<not> (\<forall>it\<in>set (completion (resp_of [Yield (ev_trace 7), Yield ev_other, Yield (ev_trace 8)])).
              \<exists>ev. it = Yield ev \<and> is_trace ev)"
    by (simp add: is_trace_def)
  have a3: "api_returning (resp_of [Yield (ev_trace 7), Raise ''throttlingException'', Yield (ev_trace 8)])
        (request_of (VStr []) args0) =
      Inr (resp_of [Yield (ev_trace 7), Raise ''throttlingException'', Yield (ev_trace 8)])"
    by (simp add: api_returning_def)
  have b3: "chunks (completion
        (resp_of [Yield (ev_trace 7), Raise ''throttlingException'', Yield (ev_trace 8)])) = []"
    by (simp add: chunks_def)
  have d3: "\<not> (\<forall>it\<in>set (completion
        (resp_of [Yield (ev_trace 7), Raise ''throttlingException'', Yield (ev_trace 8)])).
              \<exists>ev. it = Yield ev \<and> is_trace ev)"
    by (simp add: is_trace_def)
  note T1 = no_chunk_raises
      [where api = "api_returning (resp_of [Yield (ev_trace 7), Yield (ev_trace 8)])" and q = "VStr []"
         and args = args0 and resp = "resp_of [Yield (ev_trace 7), Yield (ev_trace 8)]" and clk = int,
       OF a1 b1, unfolded if_P[OF d1]]
  note T2 = no_chunk_raises
      [where api = "api_returning (resp_of [Yield (ev_trace 7), Yield ev_other, Yield (ev_trace 8)])"
         and q = "VStr []" and args = args0
         and resp = "resp_of [Yield (ev_trace 7), Yield ev_other, Yield (ev_trace 8)]" and clk = int,
       OF a2 b2, unfolded if_not_P[OF d2]]
  note T3 = no_chunk_raises
      [where api = "api_returning
            (resp_of [Yield (ev_trace 7), Raise ''throttlingException'', Yield (ev_trace 8)])"
         and q = "VStr []" and args = args0
         and resp = "resp_of [Yield (ev_trace 7), Raise ''throttlingException'', Yield (ev_trace 8)]"
         and clk = int,
       OF a3 b3, unfolded if_not_P[OF d3]]
  have e2: "invoke_agent int (api_returning (resp_of [Yield (ev_trace 7), Yield ev_other, Yield (ev_trace 8)]))
       (VStr []) args0 =
     (Inl (Exception ''Unexpected event.'' (Some ev_other)),
      Some (resp_of [Yield (ev_trace 7), Yield ev_other, Yield (ev_trace 8)], [Yield (ev_trace 8)]))"
    by (simp add: run_simps)
  have e3: "invoke_agent int
       (api_returning (resp_of [Yield (ev_trace 7), Raise ''throttlingException'', Yield (ev_trace 8)]))
       (VStr []) args0 =
     (Inl (ApiError ''throttlingException''),
      Some (resp_of [Yield (ev_trace 7), Raise ''throttlingException'', Yield (ev_trace 8)],
            [Yield (ev_trace 8)]))"
    by (simp add: run_simps)
  from T1 T2 T3 e2 e3 show ?thesis by (intro conjI)
qed

subsection \<open>C2: an unrecognized event\<close>

text \<open>
  C2: when the stream contains an event that is neither a \<open>chunk\<close> nor a \<open>trace\<close>
  event, \<open>invoke_agent\<close> does not return a result; and when that event is reached
  (every item before it is handled without an exception), the exception raised is
  \<open>Exception("Unexpected event.", event)\<close> with that event, the items after it left
  unread.
\<close>

theorem unexpected_event:
  assumes "api (request_of q args) = Inr resp" and "unrecognized ev"
  shows "(Yield ev \<in> set (completion resp) \<longrightarrow> (\<exists>e. fst (invoke_agent clk api q args) = Inl e)) \<and>
         (\<forall>pre post. completion resp = pre @ Yield ev # post \<and> (\<forall>it\<in>set pre. handled it) \<longrightarrow>
            invoke_agent clk api q args =
              (Inl (Exception ''Unexpected event.'' (Some ev)), Some (resp, post)))"
proof (intro conjI impI allI)
  assume "Yield ev \<in> set (completion resp)"
  moreover have "\<not> handled (Yield ev)" using assms(2) by (simp add: unrecognized_def)
  ultimately obtain e rest where
    "event_loop clk (clk 0) (completion resp) init_locals = (Inl e, rest)"
    using unhandled_no_success by blast
  then have "process_response clk resp = (Inl e, resp, rest)"
    by (simp add: process_response_def)
  then show "\<exists>e. fst (invoke_agent clk api q args) = Inl e"
    using assms(1) by (simp add: invoke_agent_returned[of api q args resp])
next
  fix pre post
  assume a: "completion resp = pre @ Yield ev # post \<and> (\<forall>it\<in>set pre. handled it)"
  then have "event_loop clk (clk 0) (completion resp) init_locals =
      (Inl (Exception ''Unexpected event.'' (Some ev)), post)"
    using loop_stops_at_unrecognized[OF _ assms(2)] by simp
  then have "process_response clk resp =
      (Inl (Exception ''Unexpected event.'' (Some ev)), resp, post)"
    by (simp add: process_response_def)
  then show "invoke_agent clk api q args =
      (Inl (Exception ''Unexpected event.'' (Some ev)), Some (resp, post))"
    using assms(1) by (simp add: invoke_agent_returned[of api q args resp])
qed

theorem unexpected_event_witness:
  "Yield ev_other \<in> set [Yield (ev_trace 7), Yield ev_other, Yield (ev_chunk [0x48, 0x69])] \<and>
   unrecognized ev_other \<and> handled (Yield (ev_trace 7)) \<and>
   invoke_agent int
       (api_returning (resp_of [Yield (ev_trace 7), Yield ev_other, Yield (ev_chunk [0x48, 0x69])]))
       (VStr []) args0 =
     (Inl (Exception ''Unexpected event.'' (Some ev_other)),
      Some (resp_of [Yield (ev_trace 7), Yield ev_other, Yield (ev_chunk [0x48, 0x69])],
            [Yield (ev_chunk [0x48, 0x69])]))"
  using unexpected_event
      [of "api_returning (resp_of [Yield (ev_trace 7), Yield ev_other, Yield (ev_chunk [0x48, 0x69])])"
        "VStr []" args0 "resp_of [Yield (ev_trace 7), Yield ev_other, Yield (ev_chunk [0x48, 0x69])]"
        ev_other int,
      THEN conjunct2, rule_format, of "[Yield (ev_trace 7)]" "[Yield (ev_chunk [0x48, 0x69])]"]
  by (simp add: api_returning_def unrecognized_def)

subsection \<open>C3: an exception passes through unchanged\<close>

text \<open>
  C3: an exception is never suppressed or replaced. When the API call raises \<open>e\<close>,
  \<open>invoke_agent\<close> raises \<open>e\<close>; whatever exception the body of the \<open>try\<close> ends
  with, the \<open>except\<close> branch raises that same exception; an error raised while the
  stream is iterated reaches the caller as it is; and in each case the decorated
  function raises the same exception, as the wrapper does for any callable that raises.
\<close>

theorem exceptions_propagate_unchanged:
  "(api (request_of q args) = Inl e \<longrightarrow>
      invoke_agent clk api q args = (Inl e, None) \<and>
      invoke_agent_watched clk api fresh q args sink = Inl e) \<and>
   (\<forall>resp. api (request_of q args) = Inr resp \<and> fst (process_response clk resp) = Inl e \<longrightarrow>
      fst (invoke_agent clk api q args) = Inl e \<and>
      invoke_agent_watched clk api fresh q args sink = Inl e) \<and>
   (\<forall>resp pre msg post.
      api (request_of q args) = Inr resp \<and> completion resp = pre @ Raise msg # post \<and>
      (\<forall>it\<in>set pre. handled it) \<longrightarrow>
      fst (invoke_agent clk api q args) = Inl (ApiError msg) \<and>
      invoke_agent_watched clk api fresh q args sink = Inl (ApiError msg)) \<and>
   (\<forall>func a tr ct. func a tr = Inl e \<longrightarrow> watch ct func fresh a tr sink = Inl e)"
proof (intro conjI allI impI)
  assume a: "api (request_of q args) = Inl e"
  then show "invoke_agent clk api q args = (Inl e, None)"
    by (simp add: invoke_agent_raised[of api q args e])
  then show "invoke_agent_watched clk api fresh q args sink = Inl e"
    by (simp add: watched_raise)
next
  fix resp
  assume a: "api (request_of q args) = Inr resp \<and> fst (process_response clk resp) = Inl e"
  then show b: "fst (invoke_agent clk api q args) = Inl e"
    by (cases "process_response clk resp") (simp add: invoke_agent_returned[of api q args resp])
  then show "invoke_agent_watched clk api fresh q args sink = Inl e"
    by (simp add: watched_raise)
next
  fix resp pre msg post
  assume a: "api (request_of q args) = Inr resp \<and> completion resp = pre @ Raise msg # post \<and>
      (\<forall>it\<in>set pre. handled it)"
  then have "event_loop clk (clk 0) (completion resp) init_locals = (Inl (ApiError msg), post)"
    by (simp add: loop_stops_at_raise)
  then have "process_response clk resp = (Inl (ApiError msg), resp, post)"
    by (simp add: process_response_def)
  with a show b: "fst (invoke_agent clk api q args) = Inl (ApiError msg)"
    by (simp add: invoke_agent_returned[of api q args resp])
  then show "invoke_agent_watched clk api fresh q args sink = Inl (ApiError msg)"
    by (simp add: watched_raise)
next
  fix func :: "'a val \<Rightarrow> 'c \<Rightarrow> 'a exn + 'a val" and a tr ct
  assume "func a tr = Inl e"
  then show "watch ct func fresh a tr sink = Inl e"
    by (simp add: watch_def)
qed

theorem exceptions_propagate_unchanged_witness:
  "invoke_agent int (api_raising (ApiError ''ThrottlingException'')) (VStr [81]) args0 =
      (Inl (ApiError ''ThrottlingException''), None) \<and>
   invoke_agent_watched int (api_raising (ApiError ''ThrottlingException'')) fresh1 (VStr [81]) args0 [] =
      Inl (ApiError ''ThrottlingException'') \<and>
   fst (invoke_agent int (api_returning (resp_of [Yield (ev_chunk [0xC3, 0x28])])) (VStr [81]) args0) =
      Inl UnicodeDecodeError \<and>
   invoke_agent_watched int (api_returning (resp_of [Yield (ev_chunk [0xC3, 0x28])])) fresh1 (VStr [81]) args0 [] =
      Inl UnicodeDecodeError \<and>
   fst (invoke_agent int (api_returning (resp_of [Yield (ev_trace 7), Raise ''internalServerException'',
          Yield (ev_chunk [0x48])])) (VStr [81]) args0) =
      Inl (ApiError ''internalServerException'') \<and>
   invoke_agent_watched int (api_returning (resp_of [Yield (ev_trace 7), Raise ''internalServerException'',
          Yield (ev_chunk [0x48])])) fresh1 (VStr [81]) args0 [] =
      Inl (ApiError ''internalServerException'') \<and>
   watch ''observation-feedback'' (failing_callable TypeError) fresh1 (VStr [81]) () [] = Inl TypeError"
proof -
  have a: "api_raising (ApiError ''ThrottlingException'') (request_of (VStr [81]) args0) =
      (Inl (ApiError ''ThrottlingException'') :: int exn + int agent_response)"
    by (simp add: api_raising_def)
  have b: "api_returning (resp_of [Yield (ev_chunk [0xC3, 0x28])]) (request_of (VStr [81]) args0) =
        Inr (resp_of [Yield (ev_chunk [0xC3, 0x28])]) \<and>
      fst (process_response int (resp_of [Yield (ev_chunk [0xC3, 0x28])])) = Inl UnicodeDecodeError"
    by (simp add: run_simps cont_def)
  have c: "api_returning (resp_of [Yield (ev_trace 7), Raise ''internalServerException'', Yield (ev_chunk [0x48])])
        (request_of (VStr [81]) args0) =
        Inr (resp_of [Yield (ev_trace 7), Raise ''internalServerException'', Yield (ev_chunk [0x48])]) \<and>
      completion (resp_of [Yield (ev_trace 7), Raise ''internalServerException'', Yield (ev_chunk [0x48])]) =
        [Yield (ev_trace 7)] @ Raise ''internalServerException'' # [Yield (ev_chunk [0x48])] \<and>
      (\<forall>it\<in>set [Yield (ev_trace 7)]. handled it)"
    by (simp add: api_returning_def)
  have d: "failing_callable TypeError (VStr [81]) () = (Inl TypeError :: int exn + int val)"
    by (simp add: failing_callable_def)
  note T1 = exceptions_propagate_unchanged
      [where api = "api_raising (ApiError ''ThrottlingException'')" and q = "VStr [81]"
         and args = args0 and e = "ApiError ''ThrottlingException''" and clk = int
         and fresh = fresh1 and sink = "[]", THEN conjunct1, rule_format, OF a]
  note T2 = exceptions_propagate_unchanged
      [where api = "api_returning (resp_of [Yield (ev_chunk [0xC3, 0x28])])" and q = "VStr [81]"
         and args = args0 and e = UnicodeDecodeError and clk = int
         and fresh = fresh1 and sink = "[]", THEN conjunct2, THEN conjunct1, rule_format, OF b]
  note T3 = exceptions_propagate_unchanged
      [where api = "api_returning (resp_of [Yield (ev_trace 7), Raise ''internalServerException'',
          Yield (ev_chunk [0x48])])" and q = "VStr [81]"
         and args = args0 and clk = int
         and fresh = fresh1 and sink = "[]", THEN conjunct2, THEN conjunct2, THEN conjunct1, rule_format, OF c]
  note T4 = exceptions_propagate_unchanged
      [where e = TypeError and fresh = fresh1 and sink = "[]",
       THEN conjunct2, THEN conjunct2, THEN conjunct2, rule_format,
       of "failing_callable TypeError" "VStr [81]" "()" "''observation-feedback''", OF d]
  from T1 T2 T3 T4 show ?thesis by blast
qed

subsection \<open>C4: the wrapped call returns the result and two identifiers\<close>

text \<open>
  C4: when the wrapped callable returns \<open>result\<close>, the wrapped call returns the tuple
  of four values the notebook unpacks: the original result, the log record, and the
  newly minted \<open>run_id\<close> and \<open>observation_id\<close>, which are strings and not \<open>None\<close>
  and are the identifiers of the record written; so does the decorated \<open>invoke_agent\<close>,
  whose result is the tuple the undecorated function returns.
\<close>

theorem watched_call_returns_identifiers:
  "(\<forall>result. func a tr = Inr result \<longrightarrow>
      (\<exists>log. watch ct func fresh a tr sink =
                Inr ((result, log, VStr (new_run_id fresh), VStr (new_observation_id fresh)),
                     sink @ [log]) \<and>
             run_id log = new_run_id fresh \<and> observation_id log = new_observation_id fresh \<and>
             captured_output log = result)) \<and>
   VStr (new_run_id fresh) \<noteq> VNone \<and> VStr (new_observation_id fresh) \<noteq> VNone \<and>
   (\<forall>r. fst (invoke_agent clk api q args) = Inr r \<longrightarrow>
      (\<exists>log. invoke_agent_watched clk api fresh q args sink =
                Inr ((tuple_val r, log, VStr (new_run_id fresh), VStr (new_observation_id fresh)),
                     sink @ [log])))"
  by (simp add: watch_def invoke_agent_watched_def Let_def)

theorem watched_call_returns_identifiers_witness:
  "(\<exists>log. watch ''agent-in-prod''
            (\<lambda>q a. map_sum id tuple_val (fst (invoke_agent int (api_returning (resp_of stream_hi)) q a)))
            fresh1 (VStr [81]) args0 [] =
              Inr ((hi_output, log, VStr (new_run_id fresh1), VStr (new_observation_id fresh1)), [] @ [log]) \<and>
           run_id log = new_run_id fresh1 \<and> observation_id log = new_observation_id fresh1 \<and>
           captured_output log = hi_output) \<and>
   invoke_agent_watched int (api_returning (resp_of stream_hi)) fresh1 (VStr [81]) args0 [] =
      Inr ((hi_output, hi_log fresh1, VStr [1], VStr [2]), [hi_log fresh1])"
proof -
  have a: "map_sum id tuple_val (fst (invoke_agent int (api_returning (resp_of stream_hi)) (VStr [81]) args0)) =
      Inr hi_output"
    by (simp add: run_simps tuple_val_def)
  note T1 = watched_call_returns_identifiers
      [where func = "\<lambda>q a. map_sum id tuple_val (fst (invoke_agent int (api_returning (resp_of stream_hi)) q a))"
         and a = "VStr [81]" and tr = args0 and ct = "''agent-in-prod''" and fresh = fresh1
         and sink = "[]", THEN conjunct1, rule_format, OF a]
  have b: "invoke_agent_watched int (api_returning (resp_of stream_hi)) fresh1 (VStr [81]) args0 [] =
      Inr ((hi_output, hi_log fresh1, VStr [1], VStr [2]), [hi_log fresh1])"
    by (simp add: run_simps invoke_agent_watched_def watch_def tuple_val_def)
  from T1 b show ?thesis by blast
qed

subsection \<open>C5: only the first positional argument is the logged input\<close>

text \<open>
  C5, as stated, fails in its last part: a trailing argument does appear in the log when
  the wrapped function returns it, since the record holds the full return value as
  \<open>captured_output\<close>. Two calls of a callable that returns its trailing argument log
  that argument; and the decorated \<open>invoke_agent\<close> logs its \<open>session_id\<close> when a
  trace event of the API carries it.
\<close>

theorem trailing_argument_in_captured_output:
  "watch ''LLM'' returning_trailing fresh1 (VStr [81]) (VStr [83]) [] =
     Inr ((VStr [83],
           \<lparr>run_id = [1], observation_id = [2], call_type = ''LLM'', captured_input = VStr [81],
            captured_output = VStr [83], timestamp = 100\<rparr>,
           VStr [1], VStr [2]),
          [\<lparr>run_id = [1], observation_id = [2], call_type = ''LLM'', captured_input = VStr [81],
            captured_output = VStr [83], timestamp = 100\<rparr>]) \<and>
   watch ''LLM'' returning_trailing fresh1 (VStr [81]) (VStr [84]) [] =
     Inr ((VStr [84],
           \<lparr>run_id = [1], observation_id = [2], call_type = ''LLM'', captured_input = VStr [81],
            captured_output = VStr [84], timestamp = 100\<rparr>,
           VStr [1], VStr [2]),
          [\<lparr>run_id = [1], observation_id = [2], call_type = ''LLM'', captured_input = VStr [81],
            captured_output = VStr [84], timestamp = 100\<rparr>]) \<and>
   session_id args1 = VStr [67] \<and>
   invoke_agent_watched int api_echoing fresh1 (VStr [81]) args1 [] =
     Inr ((VTuple [VDict [(''time_to_first_token'', VFloat 2), (''time_to_last_token'', VFloat 1)],
                   VStr [72, 105],
                   VList [VDict [(''sessionId'', VStr [67]), (''start_trace_time'', VFloat 1)]]],
           \<lparr>run_id = [1], observation_id = [2], call_type = ''agent-in-prod'',
            captured_input = VStr [81],
            captured_output =
              VTuple [VDict [(''time_to_first_token'', VFloat 2), (''time_to_last_token'', VFloat 1)],
                      VStr [72, 105],
                      VList [VDict [(''sessionId'', VStr [67]), (''start_trace_time'', VFloat 1)]]],
            timestamp = 100\<rparr>,
           VStr [1], VStr [2]),
          [\<lparr>run_id = [1], observation_id = [2], call_type = ''agent-in-prod'',
            captured_input = VStr [81],
            captured_output =
              VTuple [VDict [(''time_to_first_token'', VFloat 2), (''time_to_last_token'', VFloat 1)],
                      VStr [72, 105],
                      VList [VDict [(''sessionId'', VStr [67]), (''start_trace_time'', VFloat 1)]]],
            timestamp = 100\<rparr>])"
  by (simp add: run_simps invoke_agent_watched_def watch_def tuple_val_def returning_trailing_def
        api_echoing_def)

text \<open>
  C5, amended: two wrapped calls of the same function with the same first positional
  argument write records with the same \<open>captured_input\<close>, that argument, whatever
  their trailing arguments, identifiers, timestamps and sinks are. Each record is made
  of the identifiers and the timestamp minted, the call type, the first argument and
  the value the function returned: a trailing argument reaches the record only through
  that returned value, logged as \<open>captured_output\<close>.
\<close>

theorem first_argument_is_captured_input:
  assumes "watch ct func m1 a tr1 sink1 = Inr ((r1, log1, ids1), sink1')"
    and "watch ct func m2 a tr2 sink2 = Inr ((r2, log2, ids2), sink2')"
  shows "captured_input log1 = a \<and> captured_input log2 = a \<and>
         log1 = \<lparr>run_id = new_run_id m1, observation_id = new_observation_id m1, call_type = ct,
                  captured_input = a, captured_output = r1, timestamp = now m1\<rparr> \<and>
         log2 = \<lparr>run_id = new_run_id m2, observation_id = new_observation_id m2, call_type = ct,
                  captured_input = a, captured_output = r2, timestamp = now m2\<rparr> \<and>
         func a tr1 = Inr r1 \<and> func a tr2 = Inr r2 \<and>
         sink1' = sink1 @ [log1] \<and> sink2' = sink2 @ [log2]"
  using assms by (auto simp: watch_def Let_def split: sum.splits)

theorem first_argument_is_captured_input_witness:
  "args0 \<noteq> args1 \<and>
   invoke_agent_watched int (api_returning (resp_of stream_hi)) fresh1 (VStr [81]) args0 [] =
      Inr ((hi_output, hi_log fresh1, VStr [1], VStr [2]), [hi_log fresh1]) \<and>
   invoke_agent_watched int (api_returning (resp_of stream_hi)) fresh2 (VStr [81]) args1 [hi_log fresh1] =
      Inr ((hi_output, hi_log fresh2, VStr [3], VStr [4]), [hi_log fresh1, hi_log fresh2]) \<and>
   captured_input (hi_log fresh1) = VStr [81] \<and> captured_input (hi_log fresh2) = VStr [81] \<and>
   hi_log fresh1 =
     \<lparr>run_id = new_run_id fresh1, observation_id = new_observation_id fresh1,
      call_type = ''agent-in-prod'', captured_input = VStr [81], captured_output = hi_output,
      timestamp = now fresh1\<rparr> \<and>
   hi_log fresh2 =
     \<lparr>run_id = new_run_id fresh2, observation_id = new_observation_id fresh2,
      call_type = ''agent-in-prod'', captured_input = VStr [81], captured_output = hi_output,
      timestamp = now fresh2\<rparr>"
proof -
  have a: "watch ''agent-in-prod''
            (\<lambda>q a. map_sum id tuple_val (fst (invoke_agent int (api_returning (resp_of stream_hi)) q a)))
            fresh1 (VStr [81]) args0 [] =
      Inr ((hi_output, hi_log fresh1, VStr [1], VStr [2]), [hi_log fresh1])"
    by (simp add: run_simps invoke_agent_watched_def watch_def tuple_val_def)
  have b: "watch ''agent-in-prod''
            (\<lambda>q a. map_sum id tuple_val (fst (invoke_agent int (api_returning (resp_of stream_hi)) q a)))
            fresh2 (VStr [81]) args1 [hi_log fresh1] =
      Inr ((hi_output, hi_log fresh2, VStr [3], VStr [4]), [hi_log fresh1, hi_log fresh2])"
    by (simp add: run_simps invoke_agent_watched_def watch_def tuple_val_def)
  have c: "args0 \<noteq> args1" by simp
  from first_argument_is_captured_input[OF a b] a b c show ?thesis
    by (simp add: invoke_agent_watched_def)
qed

subsection \<open>C6: the answer is the last chunk, the traces are all kept\<close>

text \<open>
  C6: when \<open>invoke_agent\<close> returns, the stream has a \<open>chunk\<close> event, the answer is the
  UTF-8 decoding of the bytes of the last \<open>chunk\<close> event alone, and \<open>trace_data\<close> is the
  list of the payloads of the \<open>trace\<close> events in stream order, each stamped under
  \<open>start_trace_time\<close> with a clock reading, the readings in increasing order.
\<close>

theorem answer_is_last_chunk:
  assumes "api (request_of q args) = Inr resp"
    and "fst (invoke_agent clk api q args) = Inr (rm, answer, trs)"
  shows "chunks (completion resp) \<noteq> [] \<and>
         answer = decode_utf8 (bytes (last (chunks (completion resp)))) \<and> answer \<noteq> None \<and>
         (\<exists>ns. length ns = length (traces (completion resp)) \<and> sorted_wrt (<) ns \<and>
               trs = map (stamp clk) (zip ns (traces (completion resp))))"
proof -
  obtain r after where pr: "process_response clk resp = (r, after)"
    by (cases "process_response clk resp")
  with assms have "r = Inr (rm, answer, trs)"
    by (auto simp: invoke_agent_returned[of api q args resp] split: sum.splits)
  with pr have "process_response clk resp = (Inr (rm, answer, trs), after)" by simp
  from process_response_success[OF this] obtain s' where
    lp: "event_loop clk (clk 0) (completion resp) init_locals = (Inr s', [])"
    and s': "end_event_received s'" "answer = agent_answer s'" "trs = trace_data s'"
    by blast
  from end_event_iff[OF lp] s'(1) have c: "chunks (completion resp) \<noteq> []"
    by (simp add: init_locals_def)
  from answer_loop[OF lp] c s'(2)
  have a: "answer = decode_utf8 (bytes (last (chunks (completion resp))))" "answer \<noteq> None"
    by simp_all
  from trace_data_loop[OF lp] s'(3)
  have "\<exists>ns. length ns = length (traces (completion resp)) \<and> sorted_wrt (<) ns \<and>
               trs = map (stamp clk) (zip ns (traces (completion resp)))"
    by (auto simp: init_locals_def)
  with c a show ?thesis by simp
qed

theorem answer_is_last_chunk_witness:
  "fst (invoke_agent int (api_returning (resp_of stream_a)) (VStr [81]) args0) =
     Inr ([(''RequestId'', VInt 1), (''time_to_first_token'', VFloat 1), (''time_to_last_token'', VFloat 2)],
          Some [233], [[(''traceId'', VInt 7), (''start_trace_time'', VFloat 2)]]) \<and>
   chunks stream_a = [\<lparr>bytes = [0x48], attribution = []\<rparr>, \<lparr>bytes = [0xC3, 0xA9], attribution = []\<rparr>] \<and>
   Some [233] = decode_utf8 (bytes (last (chunks stream_a))) \<and>
   (\<exists>ns. length ns = length (traces stream_a) \<and> sorted_wrt (<) ns \<and>
         [[(''traceId'', VInt 7), (''start_trace_time'', VFloat 2)]] =
           map (stamp int) (zip ns (traces stream_a)))"
proof -
  have a: "api_returning (resp_of stream_a) (request_of (VStr [81]) args0) = Inr (resp_of stream_a)"
    by (simp add: api_returning_def)
  have b: "fst (invoke_agent int (api_returning (resp_of stream_a)) (VStr [81]) args0) =
     Inr ([(''RequestId'', VInt 1), (''time_to_first_token'', VFloat 1), (''time_to_last_token'', VFloat 2)],
          Some [233], [[(''traceId'', VInt 7), (''start_trace_time'', VFloat 2)]])"
    by (simp add: run_simps cont_def low6_def)
  have c: "chunks stream_a = [\<lparr>bytes = [0x48], attribution = []\<rparr>, \<lparr>bytes = [0xC3, 0xA9], attribution = []\<rparr>]"
    by (simp add: chunks_def)
  note T = answer_is_last_chunk
      [where api = "api_returning (resp_of stream_a)" and q = "VStr [81]" and args = args0
         and resp = "resp_of stream_a" and clk = int, OF a b]
  from T b c show ?thesis by simp
qed

subsection \<open>C7: the stream is read to its end\<close>

text \<open>
  C7: for a stream of \<open>chunk\<close> and \<open>trace\<close> events only, with at least one \<open>chunk\<close>
  event, whenever \<open>invoke_agent\<close> returns a result no item of the stream is left
  unread; and it does return a result when the bytes of every chunk decode.
\<close>

theorem stream_read_to_completion:
  assumes "api (request_of q args) = Inr resp"
    and "\<forall>it\<in>set (completion resp). \<exists>ev. it = Yield ev \<and> (is_chunk ev \<or> is_trace ev)"
    and "\<exists>it\<in>set (completion resp). \<exists>ev. it = Yield ev \<and> is_chunk ev"
  shows "(\<forall>r after. invoke_agent clk api q args = (Inr r, after) \<longrightarrow>
            (\<exists>resp'. after = Some (resp', []))) \<and>
         ((\<forall>c\<in>set (chunks (completion resp)). decode_utf8 (bytes c) \<noteq> None) \<longrightarrow>
            (\<exists>r resp'. invoke_agent clk api q args = (Inr r, Some (resp', []))))"
proof (intro conjI allI impI)
  fix r after
  assume ret: "invoke_agent clk api q args = (Inr r, after)"
  obtain r' st where pr: "process_response clk resp = (r', st)"
    by (cases "process_response clk resp")
  with ret assms(1) have r': "r' = Inr r" "after = Some st"
    by (auto simp: invoke_agent_returned[of api q args resp] split: sum.splits)
  obtain rm ans trs where "r = (rm, ans, trs)" by (cases r)
  with pr r' have "process_response clk resp = (Inr (rm, ans, trs), st)" by simp
  from process_response_success[OF this] r'(2)
  show "\<exists>resp'. after = Some (resp', [])" by auto
next
  assume dec: "\<forall>c\<in>set (chunks (completion resp)). decode_utf8 (bytes c) \<noteq> None"
  from decodable_handled[OF assms(2) dec] handled_success
  obtain s' where lp: "event_loop clk (clk 0) (completion resp) init_locals = (Inr s', [])"
    by blast
  from assms(3) have "chunks (completion resp) \<noteq> []"
    by (force simp: is_chunk_def set_chunks simp flip: set_empty)
  with end_event_iff[OF lp] have "end_event_received s'" by simp
  from process_response_total[OF lp this] obtain rm where
    "process_response clk resp =
       (Inr (rm, agent_answer s', trace_data s'), resp\<lparr>ResponseMetadata := rm\<rparr>, [])"
    by blast
  then show "\<exists>r resp'. invoke_agent clk api q args = (Inr r, Some (resp', []))"
    using assms(1) by (simp add: invoke_agent_returned[of api q args resp])
qed

theorem stream_read_to_completion_witness:
  "(\<exists>r resp'. invoke_agent int (api_returning (resp_of stream_a)) (VStr [81]) args0 = (Inr r, Some (resp', []))) \<and>
   snd (invoke_agent int (api_returning (resp_of stream_a)) (VStr [81]) args0) =
     Some (resp_of stream_a
             \<lparr>ResponseMetadata := [(''RequestId'', VInt 1), (''time_to_first_token'', VFloat 1),
                                  (''time_to_last_token'', VFloat 2)]\<rparr>, [])"
proof -
  have a: "api_returning (resp_of stream_a) (request_of (VStr [81]) args0) = Inr (resp_of stream_a)"
    by (simp add: api_returning_def)
  have b: "\<forall>it\<in>set (completion (resp_of stream_a)). \<exists>ev. it = Yield ev \<and> (is_chunk ev \<or> is_trace ev)"
    by (simp add: is_chunk_def is_trace_def)
  have c: "\<exists>it\<in>set (completion (resp_of stream_a)). \<exists>ev. it = Yield ev \<and> is_chunk ev"
    by (simp add: is_chunk_def)
  have d: "\<forall>c\<in>set (chunks (completion (resp_of stream_a))). decode_utf8 (bytes c) \<noteq> None"
    by (simp add: chunks_def cont_def)
  note T = stream_read_to_completion
      [where api = "api_returning (resp_of stream_a)" and q = "VStr [81]" and args = args0
         and resp = "resp_of stream_a" and clk = int, OF a b c]
  have e: "snd (invoke_agent int (api_returning (resp_of stream_a)) (VStr [81]) args0) =
     Some (resp_of stream_a
             \<lparr>ResponseMetadata := [(''RequestId'', VInt 1), (''time_to_first_token'', VFloat 1),
                                  (''time_to_last_token'', VFloat 2)]\<rparr>, [])"
    by (simp add: run_simps cont_def low6_def)
  from T[THEN conjunct2, THEN mp, OF d] e show ?thesis by blast
qed

subsection \<open>C8: what the call changes in the response\<close>

text \<open>
  C8: when \<open>invoke_agent\<close> returns, the response object differs from the one the API
  returned in its \<open>ResponseMetadata\<close> only, which is the tuple's first component: its
  keys are the former keys and \<open>time_to_first_token\<close> and \<open>time_to_last_token\<close>, every
  other key keeps its value, and \<open>time_to_first_token\<close> is the reading taken at the
  first \<open>chunk\<close> event minus the start time, whatever follows that event.
\<close>

theorem metadata_frame:
  assumes "api (request_of q args) = Inr resp"
    and "invoke_agent clk api q args = (Inr (rm, answer, trs), after)"
  shows "after = Some (resp\<lparr>ResponseMetadata := rm\<rparr>, []) \<and>
         fst ` set rm =
           fst ` set (ResponseMetadata resp) \<union> {''time_to_first_token'', ''time_to_last_token''} \<and>
         (\<forall>k. k \<noteq> ''time_to_first_token'' \<and> k \<noteq> ''time_to_last_token'' \<longrightarrow>
              map_of rm k = map_of (ResponseMetadata resp) k) \<and>
         (\<forall>pre ev post. completion resp = pre @ Yield ev # post \<and> chunks pre = [] \<and> is_chunk ev \<longrightarrow>
              map_of rm ''time_to_first_token'' = Some (VFloat (clk (Suc (length pre)) - clk 0)))"
proof -
  obtain r' st where pr: "process_response clk resp = (r', st)"
    by (cases "process_response clk resp")
  with assms have r': "r' = Inr (rm, answer, trs)" "after = Some st"
    by (auto simp: invoke_agent_returned[of api q args resp] split: sum.splits)
  with pr have "process_response clk resp = (Inr (rm, answer, trs), st)" by simp
  from process_response_success[OF this] obtain s' t1 tf where
    lp: "event_loop clk (clk 0) (completion resp) init_locals = (Inr s', [])"
    and tf: "time_to_first_token s' = Some tf"
    and rm: "rm = AList.update ''time_to_last_token'' (VFloat (clk (ticks s') - t1))
                  (AList.update ''time_to_first_token'' (VFloat tf) (ResponseMetadata resp))"
    and st: "st = (resp\<lparr>ResponseMetadata := rm\<rparr>, [])"
    by blast
  have 1: "after = Some (resp\<lparr>ResponseMetadata := rm\<rparr>, [])" using r'(2) st by simp
  have 2: "fst ` set rm =
           fst ` set (ResponseMetadata resp) \<union> {''time_to_first_token'', ''time_to_last_token''}"
    unfolding rm by (auto simp: dom_update)
  have 3: "\<forall>k. k \<noteq> ''time_to_first_token'' \<and> k \<noteq> ''time_to_last_token'' \<longrightarrow>
              map_of rm k = map_of (ResponseMetadata resp) k"
    unfolding rm by (simp add: update_conv')
  have 4: "\<forall>pre ev post. completion resp = pre @ Yield ev # post \<and> chunks pre = [] \<and> is_chunk ev \<longrightarrow>
              map_of rm ''time_to_first_token'' = Some (VFloat (clk (Suc (length pre)) - clk 0))"
  proof (intro allI impI)
    fix pre ev post
    assume a: "completion resp = pre @ Yield ev # post \<and> chunks pre = [] \<and> is_chunk ev"
    from success_unread[OF lp] a have "\<forall>it\<in>set pre. handled it" by simp
    from handled_success[OF this] obtain s1 where
      s1: "event_loop clk (clk 0) pre init_locals = (Inr s1, [])" by blast
    with lp a have lp2: "event_loop clk (clk 0) (Yield ev # post) s1 = (Inr s', [])"
      by (simp add: event_loop_append)
    from no_chunk_loop[OF s1] a
    have "ticks s1 = Suc (length pre)" "time_to_first_token s1 = None"
      by (simp_all add: init_locals_def)
    with first_chunk_time[OF lp2] a tf have "tf = clk (Suc (length pre)) - clk 0" by simp
    then show "map_of rm ''time_to_first_token'' = Some (VFloat (clk (Suc (length pre)) - clk 0))"
      unfolding rm by (simp add: update_conv')
  qed
  from 1 2 3 4 show ?thesis by blast
qed

theorem metadata_frame_witness:
  "invoke_agent int (api_returning (resp_of stream_b)) (VStr [81]) args0 =
     (Inr ([(''RequestId'', VInt 1), (''time_to_first_token'', VFloat 2), (''time_to_last_token'', VFloat 1)],
           Some [105], [[(''traceId'', VInt 7), (''start_trace_time'', VFloat 1)]]),
      Some (resp_of stream_b
              \<lparr>ResponseMetadata := [(''RequestId'', VInt 1), (''time_to_first_token'', VFloat 2),
                                   (''time_to_last_token'', VFloat 1)]\<rparr>, [])) \<and>
   fst ` set [(''RequestId'', VInt 1), (''time_to_first_token'', VFloat (2::int)), (''time_to_last_token'', VFloat 1)] =
     fst ` set (ResponseMetadata (resp_of stream_b)) \<union> {''time_to_first_token'', ''time_to_last_token''} \<and>
   map_of [(''RequestId'', VInt 1), (''time_to_first_token'', VFloat (2::int)), (''time_to_last_token'', VFloat 1)]
       ''RequestId'' = map_of (ResponseMetadata (resp_of stream_b)) ''RequestId'' \<and>
   map_of [(''RequestId'', VInt 1), (''time_to_first_token'', VFloat (2::int)), (''time_to_last_token'', VFloat 1)]
       ''time_to_first_token'' = Some (VFloat (int (Suc (length [Yield (ev_trace 7)])) - int 0))"
proof -
  have a: "api_returning (resp_of stream_b) (request_of (VStr [81]) args0) = Inr (resp_of stream_b)"
    by (simp add: api_returning_def)
  have b: "invoke_agent int (api_returning (resp_of stream_b)) (VStr [81]) args0 =
     (Inr ([(''RequestId'', VInt 1), (''time_to_first_token'', VFloat 2), (''time_to_last_token'', VFloat 1)],
           Some [105], [[(''traceId'', VInt 7), (''start_trace_time'', VFloat 1)]]),
      Some (resp_of stream_b
              \<lparr>ResponseMetadata := [(''RequestId'', VInt 1), (''time_to_first_token'', VFloat 2),
                                   (''time_to_last_token'', VFloat 1)]\<rparr>, []))"
    by (simp add: run_simps)
  note T = metadata_frame
      [where api = "api_returning (resp_of stream_b)" and q = "VStr [81]" and args = args0
         and resp = "resp_of stream_b" and clk = int, OF a b]
  have k: "''RequestId'' \<noteq> ''time_to_first_token'' \<and> ''RequestId'' \<noteq> ''time_to_last_token''"
    by simp
  have p: "completion (resp_of stream_b) =
      [Yield (ev_trace 7)] @ Yield (ev_chunk [0x48]) # [Yield (ev_chunk [0x69])] \<and>
      chunks [Yield (ev_trace 7)] = [] \<and> is_chunk (ev_chunk [0x48])"
    by (simp add: chunks_def is_chunk_def)
  note T2 = T[THEN conjunct2, THEN conjunct1]
  note T3 = T[THEN conjunct2, THEN conjunct2, THEN conjunct1, rule_format, OF k]
  note T4 = T[THEN conjunct2, THEN conjunct2, THEN conjunct2, rule_format, OF p]
  from b T2 T3 T4 show ?thesis by blast
qed

subsection \<open>C10: feedback is logged without a referential check\<close>

text \<open>
  C10: for every feedback payload and every sink, the wrapped
  \<open>observation_level_feedback\<close> and \<open>session_level_feedback\<close> return without an
  exception and append one record holding the payload; in particular when the payload
  refers to no record of the sink, as in the example that follows the theorem.
\<close>

theorem feedback_needs_no_referent:
  "(\<exists>log. watch ''observation-feedback'' observation_level_feedback fresh feedback () sink =
            Inr ((VNone, log, VStr (new_run_id fresh), VStr (new_observation_id fresh)),
                 sink @ [log]) \<and>
          captured_input log = feedback \<and> call_type log = ''observation-feedback'') \<and>
   (\<exists>log. watch ''session-feedback'' session_level_feedback fresh feedback () sink =
            Inr ((VNone, log, VStr (new_run_id fresh), VStr (new_observation_id fresh)),
                 sink @ [log]) \<and>
          captured_input log = feedback \<and> call_type log = ''session-feedback'')"
  by (simp add: watch_def observation_level_feedback_def session_level_feedback_def Let_def)

theorem feedback_needs_no_referent_witness:
  "referenced_records dangling_feedback [hi_log fresh1] = [] \<and>
   (\<exists>log. watch ''observation-feedback'' observation_level_feedback fresh2 dangling_feedback () [hi_log fresh1] =
            Inr ((VNone, log, VStr (new_run_id fresh2), VStr (new_observation_id fresh2)),
                 [hi_log fresh1] @ [log]) \<and>
          captured_input log = dangling_feedback \<and> call_type log = ''observation-feedback'') \<and>
   (\<exists>log. watch ''session-feedback'' session_level_feedback fresh2 dangling_feedback () [hi_log fresh1] =
            Inr ((VNone, log, VStr (new_run_id fresh2), VStr (new_observation_id fresh2)),
                 [hi_log fresh1] @ [log]) \<and>
          captured_input log = dangling_feedback \<and> call_type log = ''session-feedback'')"
proof -
  have a: "referenced_records dangling_feedback [hi_log fresh1] = []"
    by (simp add: referenced_records_def)
  from a feedback_needs_no_referent[of fresh2 dangling_feedback "[hi_log fresh1]"] show ?thesis
    by blast
qed

end
